theory Spec2Isabelle
  imports Main "HOL-Library.Word"
begin

unbundle bit_operations_syntax

section \<open>Python values and exceptions\<close>

text \<open>
  The request parameters of \<^verbatim>\<open>api/service.py\<close> arrive as a Python dict whose values
  are untyped. The values covered here are \<^verbatim>\<open>None\<close>, booleans, integers and strings;
  a Python \<^verbatim>\<open>str\<close> is a \<open>string\<close>.
\<close>

datatype pyval = PNone | PBool bool | PInt int | PStr string

text \<open>
  Every raise is a value. \<open>Raised\<close> stands for an exception that comes out of the
  ComfyUI client, named by its text. \<open>RecursionError\<close> is what the JSON scanner answers
  when the bound on its recursion is used up.
\<close>

datatype exn =
    KeyError string
  | ValueError
  | TypeError
  | BinasciiError
  | JSONDecodeError
  | RecursionError
  | Raised string

type_synonym byte = "8 word"

text \<open>\<^verbatim>\<open>params.get(key)\<close>: the value, or \<^verbatim>\<open>None\<close> when the key is absent.\<close>

definition dict_get :: "(string \<rightharpoonup> pyval) \<Rightarrow> string \<Rightarrow> pyval" where
  "dict_get d k = (case d k of None \<Rightarrow> PNone | Some v \<Rightarrow> v)"

subsection \<open>\<^verbatim>\<open>str(value)\<close>\<close>

definition digit_char :: "nat \<Rightarrow> char" where
  "digit_char d = char_of (48 + d)"

function str_nat :: "nat \<Rightarrow> string" where
  "str_nat n = (if n < 10 then [digit_char n] else str_nat (n div 10) @ [digit_char (n mod 10)])"
  by pat_completeness auto
termination
  by (relation "measure id") auto

declare str_nat.simps [simp del]

fun py_str :: "pyval \<Rightarrow> string" where
  "py_str PNone = ''None''"
| "py_str (PBool b) = (if b then ''True'' else ''False'')"
| "py_str (PInt i) = (if i < 0 then CHR ''-'' # str_nat (nat (- i)) else str_nat (nat i))"
| "py_str (PStr s) = s"

section \<open>\<^verbatim>\<open>string.Template.substitute\<close>\<close>

text \<open>
  Modelled from the spec: a workflow template is a document with named substitution points
  (\<^verbatim>\<open>text\<close>, \<^verbatim>\<open>image\<close>). The two constants are defined in \<^verbatim>\<open>workflows\<close>,
  outside \<^verbatim>\<open>api/service.py\<close>; the method the service calls on them,
  \<^verbatim>\<open>substitute\<close> with keyword arguments, is that of \<^verbatim>\<open>string.Template\<close>, and their
  text is a parameter of the operations. The pattern of the class
  finds, at every \<^verbatim>\<open>$\<close>, one of: \<^verbatim>\<open>$$\<close> (an escaped delimiter), \<^verbatim>\<open>$name\<close>,
  \<^verbatim>\<open>${name}\<close>, or an ill-formed placeholder. A name is \<^verbatim>\<open>[_a-z][_a-z0-9]*\<close>, matched
  without regard to case. A placeholder is replaced with \<^verbatim>\<open>str(mapping[name])\<close>: a
  missing name raises \<^verbatim>\<open>KeyError\<close>, an ill-formed placeholder \<^verbatim>\<open>ValueError\<close>.
  Matches are converted from left to right, so the first failing one decides the exception.
\<close>

definition is_idstart :: "char \<Rightarrow> bool" where
  "is_idstart c =
     (let n = (of_char c :: nat)
      in n = 95 \<or> (97 \<le> n \<and> n \<le> 122) \<or> (65 \<le> n \<and> n \<le> 90))"

definition is_idchar :: "char \<Rightarrow> bool" where
  "is_idchar c = (is_idstart c \<or> (48 \<le> (of_char c :: nat) \<and> (of_char c :: nat) \<le> 57))"

definition prepend :: "string \<Rightarrow> exn + string \<Rightarrow> exn + string" where
  "prepend p r = (case r of Inl e \<Rightarrow> Inl e | Inr s \<Rightarrow> Inr (p @ s))"

function substitute :: "string \<Rightarrow> (string \<rightharpoonup> pyval) \<Rightarrow> exn + string" where
  "substitute [] kws = Inr []"
| "substitute (c # cs) kws =
     (if c \<noteq> CHR ''$'' then prepend [c] (substitute cs kws)
      else (case cs of
          [] \<Rightarrow> Inl ValueError
        | d # ds \<Rightarrow>
            if d = CHR ''$'' then prepend ''$'' (substitute ds kws)
            else if is_idstart d then
              (case kws (takeWhile is_idchar cs) of
                 None \<Rightarrow> Inl (KeyError (takeWhile is_idchar cs))
               | Some v \<Rightarrow> prepend (py_str v) (substitute (dropWhile is_idchar cs) kws))
            else if d = CHR ''{'' \<and> ds \<noteq> [] \<and> is_idstart (hd ds)
                    \<and> dropWhile is_idchar ds \<noteq> [] \<and> hd (dropWhile is_idchar ds) = CHR ''}'' then
              (case kws (takeWhile is_idchar ds) of
                 None \<Rightarrow> Inl (KeyError (takeWhile is_idchar ds))
               | Some v \<Rightarrow> prepend (py_str v) (substitute (tl (dropWhile is_idchar ds)) kws))
            else Inl ValueError))"
  by pat_completeness auto
termination
proof (relation "measure (\<lambda>(t, kws). length t)")
  show "wf (measure (\<lambda>(t, kws). length t))" by simp
next
  fix c :: char and cs :: string and kws :: "string \<rightharpoonup> pyval"
  show "((cs, kws), c # cs, kws) \<in> measure (\<lambda>(t, kws). length t)" by simp
next
  fix c d :: char and cs ds :: string and kws :: "string \<rightharpoonup> pyval"
  assume "cs = d # ds"
  then show "((ds, kws), c # cs, kws) \<in> measure (\<lambda>(t, kws). length t)" by simp
next
  fix c :: char and cs :: string and kws :: "string \<rightharpoonup> pyval"
  have "length (dropWhile is_idchar cs) \<le> length cs" by (rule length_dropWhile_le)
  then show "((dropWhile is_idchar cs, kws), c # cs, kws) \<in> measure (\<lambda>(t, kws). length t)"
    by simp
next
  fix c d :: char and cs ds :: string and kws :: "string \<rightharpoonup> pyval"
  assume "cs = d # ds"
  moreover have "length (tl (dropWhile is_idchar ds)) \<le> length ds"
    using length_dropWhile_le [of is_idchar ds] by simp
  ultimately show "((tl (dropWhile is_idchar ds), kws), c # cs, kws) \<in> measure (\<lambda>(t, kws). length t)"
    by simp
qed

section \<open>\<^verbatim>\<open>base64.b64decode\<close>\<close>

text \<open>
  \<^verbatim>\<open>base64.b64decode(s)\<close> with its default arguments. A \<^verbatim>\<open>str\<close> argument is
  encoded as ASCII first (\<^verbatim>\<open>ValueError\<close> on any other character); an argument that is
  neither text nor bytes raises \<^verbatim>\<open>TypeError\<close>. The bytes go to
  \<^verbatim>\<open>binascii.a2b_base64\<close> in its non-strict mode, the loop of which is
  \<open>a2b_base64\<close> below: characters outside the alphabet are skipped, a pad sequence that
  completes the quad ends the input, and data that stops inside a quad raises
  \<^verbatim>\<open>binascii.Error\<close>.
\<close>

definition table_a2b_base64 :: "char \<Rightarrow> byte option" where
  "table_a2b_base64 c =
     (let n = (of_char c :: nat)
      in if 65 \<le> n \<and> n \<le> 90 then Some (of_nat (n - 65))
         else if 97 \<le> n \<and> n \<le> 122 then Some (of_nat (n - 71))
         else if 48 \<le> n \<and> n \<le> 57 then Some (of_nat (n + 4))
         else if n = 43 then Some 62
         else if n = 47 then Some 63
         else None)"

fun a2b_base64 :: "nat \<Rightarrow> byte \<Rightarrow> nat \<Rightarrow> byte list \<Rightarrow> string \<Rightarrow> exn + byte list" where
  "a2b_base64 quad_pos leftchar pads bin_data [] =
     (if quad_pos \<noteq> 0 then Inl BinasciiError else Inr bin_data)"
| "a2b_base64 quad_pos leftchar pads bin_data (c # cs) =
     (if c = CHR ''='' then
        (if 2 \<le> quad_pos \<and> 4 \<le> quad_pos + (pads + 1) then Inr bin_data
         else a2b_base64 quad_pos leftchar (if 2 \<le> quad_pos then pads + 1 else pads) bin_data cs)
      else (case table_a2b_base64 c of
          None \<Rightarrow> a2b_base64 quad_pos leftchar pads bin_data cs
        | Some this_ch \<Rightarrow>
            if quad_pos = 0 then a2b_base64 1 this_ch 0 bin_data cs
            else if quad_pos = 1 then
              a2b_base64 2 (this_ch AND 0x0f) 0
                (bin_data @ [push_bit 2 leftchar OR drop_bit 4 this_ch]) cs
            else if quad_pos = 2 then
              a2b_base64 3 (this_ch AND 0x03) 0
                (bin_data @ [push_bit 4 leftchar OR drop_bit 2 this_ch]) cs
            else
              a2b_base64 0 0 0 (bin_data @ [push_bit 6 leftchar OR this_ch]) cs))"

definition b64decode :: "pyval \<Rightarrow> exn + byte list" where
  "b64decode s =
     (case s of
        PStr cs \<Rightarrow>
          if list_all (\<lambda>c. (of_char c :: nat) < 128) cs then a2b_base64 0 0 0 [] cs
          else Inl ValueError
      | _ \<Rightarrow> Inl TypeError)"

section \<open>\<^verbatim>\<open>json.loads\<close>\<close>

text \<open>
  The value \<^verbatim>\<open>json.loads\<close> builds: \<^verbatim>\<open>None\<close>, a bool, an int, a float, a str, a
  list or a dict. A float keeps the text it was read from. A decoded string is a list of
  code points, since a \<^verbatim>\<open>\uXXXX\<close> escape reaches beyond one byte. A dict keeps its
  keys in the order of their first insertion.
\<close>

datatype json =
    JNull
  | JBool bool
  | JInt int
  | JFloat string
  | JStr "nat list"
  | JArr "json list"
  | JObj "(nat list \<times> json) list"

abbreviation ustr :: "string \<Rightarrow> nat list" where
  "ustr s \<equiv> map of_char s"

fun dict_set :: "('k \<times> 'v) list \<Rightarrow> 'k \<Rightarrow> 'v \<Rightarrow> ('k \<times> 'v) list" where
  "dict_set [] k v = [(k, v)]"
| "dict_set ((k', v') # d) k v = (if k' = k then (k', v) # d else (k', v') # dict_set d k v)"

text \<open>\<^verbatim>\<open>dict(pairs)\<close>: a later pair with the same key replaces the value in place.\<close>

definition dict_of_pairs :: "('k \<times> 'v) list \<Rightarrow> ('k \<times> 'v) list" where
  "dict_of_pairs ps = foldl (\<lambda>d (k, v). dict_set d k v) [] ps"

definition is_ws :: "char \<Rightarrow> bool" where
  "is_ws c = (let n = (of_char c :: nat) in n = 32 \<or> n = 9 \<or> n = 10 \<or> n = 13)"

definition skip_ws :: "string \<Rightarrow> string" where
  "skip_ws s = dropWhile is_ws s"

definition is_digit :: "char \<Rightarrow> bool" where
  "is_digit c = (48 \<le> (of_char c :: nat) \<and> (of_char c :: nat) \<le> 57)"

definition hexval :: "char \<Rightarrow> nat option" where
  "hexval c =
     (let n = (of_char c :: nat)
      in if 48 \<le> n \<and> n \<le> 57 then Some (n - 48)
         else if 65 \<le> n \<and> n \<le> 70 then Some (n - 55)
         else if 97 \<le> n \<and> n \<le> 102 then Some (n - 87)
         else None)"

text \<open>\<^verbatim>\<open>_decode_uXXXX\<close>: exactly four hexadecimal digits, or the escape is invalid.\<close>

definition decode_uXXXX :: "string \<Rightarrow> exn + nat" where
  "decode_uXXXX s =
     (case s of
        a # b # c # d # _ \<Rightarrow>
          (case (hexval a, hexval b, hexval c, hexval d) of
             (Some h3, Some h2, Some h1, Some h0) \<Rightarrow> Inr (((h3 * 16 + h2) * 16 + h1) * 16 + h0)
           | _ \<Rightarrow> Inl JSONDecodeError)
      | _ \<Rightarrow> Inl JSONDecodeError)"

definition BACKSLASH :: "char \<Rightarrow> nat option" where
  "BACKSLASH esc =
     (if esc = CHR 0x22 then Some 0x22
      else if esc = CHR 0x5C then Some 0x5C
      else if esc = CHR ''/'' then Some 0x2F
      else if esc = CHR ''b'' then Some 8
      else if esc = CHR ''f'' then Some 12
      else if esc = CHR ''n'' then Some 10
      else if esc = CHR ''r'' then Some 13
      else if esc = CHR ''t'' then Some 9
      else None)"

definition push_char :: "nat \<Rightarrow> exn + nat list \<times> string \<Rightarrow> exn + nat list \<times> string" where
  "push_char u r = (case r of Inl e \<Rightarrow> Inl e | Inr (content, rest) \<Rightarrow> Inr (u # content, rest))"

text \<open>
  \<^verbatim>\<open>scanstring\<close> in strict mode, entered after the opening quote: it returns the decoded
  content and the input after the closing quote. A raw control character, an unknown
  escape and a missing closing quote are errors. A high surrogate followed by an escaped
  low surrogate gives one code point.
\<close>

function scanstring :: "string \<Rightarrow> exn + nat list \<times> string" where
  "scanstring [] = Inl JSONDecodeError"
| "scanstring (c # cs) =
     (if c = CHR 0x22 then Inr ([], cs)
      else if c = CHR 0x5C then
        (case cs of
           [] \<Rightarrow> Inl JSONDecodeError
         | esc # cs1 \<Rightarrow>
             if esc \<noteq> CHR ''u'' then
               (case BACKSLASH esc of
                  None \<Rightarrow> Inl JSONDecodeError
                | Some u \<Rightarrow> push_char u (scanstring cs1))
             else
               (case decode_uXXXX cs1 of
                  Inl e \<Rightarrow> Inl e
                | Inr uni \<Rightarrow>
                    if 0xD800 \<le> uni \<and> uni \<le> 0xDBFF \<and> take 2 (drop 4 cs1) = [CHR 0x5C, CHR ''u''] then
                      (case decode_uXXXX (drop 6 cs1) of
                         Inl e \<Rightarrow> Inl e
                       | Inr uni2 \<Rightarrow>
                           if 0xDC00 \<le> uni2 \<and> uni2 \<le> 0xDFFF then
                             push_char (0x10000 + ((uni - 0xD800) * 1024 + (uni2 - 0xDC00)))
                               (scanstring (drop 10 cs1))
                           else push_char uni (scanstring (drop 4 cs1)))
                    else push_char uni (scanstring (drop 4 cs1))))
      else if (of_char c :: nat) < 0x20 then Inl JSONDecodeError
      else push_char (of_char c) (scanstring cs))"
  by pat_completeness auto
termination
  by (relation "measure length") auto

text \<open>
  \<^verbatim>\<open>NUMBER_RE\<close>: \<^verbatim>\<open>(-?(?:0|[1-9][0-9]*))(\.[0-9]+)?([eE][-+]?[0-9]+)?\<close>. The three
  functions below match its three groups; each returns the matched text and the rest.
\<close>

definition match_integer :: "string \<Rightarrow> (string \<times> string) option" where
  "match_integer s =
     (let sign = (if s \<noteq> [] \<and> hd s = CHR ''-'' then ''-'' else []);
          s1 = (if s \<noteq> [] \<and> hd s = CHR ''-'' then tl s else s)
      in case s1 of
           [] \<Rightarrow> None
         | d # r \<Rightarrow>
             if d = CHR ''0'' then Some (sign @ ''0'', r)
             else if is_digit d then Some (sign @ d # takeWhile is_digit r, dropWhile is_digit r)
             else None)"

definition match_frac :: "string \<Rightarrow> string \<times> string" where
  "match_frac s =
     (case s of
        p # d # r \<Rightarrow>
          if p = CHR ''.'' \<and> is_digit d then (p # d # takeWhile is_digit r, dropWhile is_digit r)
          else ([], s)
      | _ \<Rightarrow> ([], s))"

definition match_exp :: "string \<Rightarrow> string \<times> string" where
  "match_exp s =
     (case s of
        [] \<Rightarrow> ([], s)
      | e # r \<Rightarrow>
          if e = CHR ''e'' \<or> e = CHR ''E'' then
            (let sg = (if r \<noteq> [] \<and> (hd r = CHR ''-'' \<or> hd r = CHR ''+'') then [hd r] else []);
                 r1 = (if r \<noteq> [] \<and> (hd r = CHR ''-'' \<or> hd r = CHR ''+'') then tl r else r)
             in if r1 \<noteq> [] \<and> is_digit (hd r1)
                then (e # sg @ takeWhile is_digit r1, dropWhile is_digit r1)
                else ([], s))
          else ([], s))"

text \<open>\<^verbatim>\<open>int(text)\<close> on an optional minus sign and decimal digits.\<close>

definition parse_int :: "string \<Rightarrow> int" where
  "parse_int s =
     (let digits = (if s \<noteq> [] \<and> hd s = CHR ''-'' then tl s else s);
          n = foldl (\<lambda>a c. a * 10 + (of_char c - 48)) (0::nat) digits
      in if s \<noteq> [] \<and> hd s = CHR ''-'' then - int n else int n)"

definition match_number :: "string \<Rightarrow> (json \<times> string) option" where
  "match_number s =
     (case match_integer s of
        None \<Rightarrow> None
      | Some (integer, r) \<Rightarrow>
          (let (frac, r1) = match_frac r; (exp, r2) = match_exp r1
           in if frac = [] \<and> exp = [] then Some (JInt (parse_int integer), r2)
              else Some (JFloat (integer @ frac @ exp), r2)))"

definition starts_with :: "string \<Rightarrow> string \<Rightarrow> bool" where
  "starts_with s p = (take (length p) s = p)"

text \<open>
  \<^verbatim>\<open>scan_once\<close>, \<^verbatim>\<open>JSONArray\<close> and \<^verbatim>\<open>JSONObject\<close>. Each takes the input from its
  current position and returns the value with the rest of the input. The first argument
  bounds the recursion: every nested value and every further element costs one.
  \<open>array_loop\<close> and \<open>object_loop\<close> are the \<^verbatim>\<open>while True\<close> loops of the two parsers;
  \<open>object_loop\<close> starts after the opening quote of a key.
\<close>

fun scan_once :: "nat \<Rightarrow> string \<Rightarrow> exn + json \<times> string"
  and array_loop :: "nat \<Rightarrow> json list \<Rightarrow> string \<Rightarrow> exn + json \<times> string"
  and object_loop :: "nat \<Rightarrow> (nat list \<times> json) list \<Rightarrow> string \<Rightarrow> exn + json \<times> string"
where
  "scan_once 0 s = Inl RecursionError"
| "scan_once (Suc n) s =
     (case s of
        [] \<Rightarrow> Inl JSONDecodeError
      | nextchar # rest \<Rightarrow>
          if nextchar = CHR 0x22 then
            (case scanstring rest of Inl e \<Rightarrow> Inl e | Inr (content, r) \<Rightarrow> Inr (JStr content, r))
          else if nextchar = CHR ''{'' then
            (case skip_ws rest of
               [] \<Rightarrow> Inl JSONDecodeError
             | c # r \<Rightarrow>
                 if c = CHR ''}'' then Inr (JObj [], r)
                 else if c = CHR 0x22 then object_loop n [] r
                 else Inl JSONDecodeError)
          else if nextchar = CHR ''['' then
            (case skip_ws rest of
               [] \<Rightarrow> Inl JSONDecodeError
             | c # r \<Rightarrow>
                 if c = CHR '']'' then Inr (JArr [], r)
                 else array_loop n [] (c # r))
          else if starts_with s ''null'' then Inr (JNull, drop 4 s)
          else if starts_with s ''true'' then Inr (JBool True, drop 4 s)
          else if starts_with s ''false'' then Inr (JBool False, drop 5 s)
          else (case match_number s of
              Some res \<Rightarrow> Inr res
            | None \<Rightarrow>
                if starts_with s ''NaN'' then Inr (JFloat ''NaN'', drop 3 s)
                else if starts_with s ''Infinity'' then Inr (JFloat ''Infinity'', drop 8 s)
                else if starts_with s ''-Infinity'' then Inr (JFloat ''-Infinity'', drop 9 s)
                else Inl JSONDecodeError))"
| "array_loop 0 values s = Inl RecursionError"
| "array_loop (Suc n) values s =
     (case scan_once n s of
        Inl e \<Rightarrow> Inl e
      | Inr (v, r) \<Rightarrow>
          (case skip_ws r of
             [] \<Rightarrow> Inl JSONDecodeError
           | nextchar # r1 \<Rightarrow>
               if nextchar = CHR '']'' then Inr (JArr (values @ [v]), r1)
               else if nextchar \<noteq> CHR '','' then Inl JSONDecodeError
               else array_loop n (values @ [v]) (skip_ws r1)))"
| "object_loop 0 pairs s = Inl RecursionError"
| "object_loop (Suc n) pairs s =
     (case scanstring s of
        Inl e \<Rightarrow> Inl e
      | Inr (key, r) \<Rightarrow>
          (case skip_ws r of
             [] \<Rightarrow> Inl JSONDecodeError
           | colon # r1 \<Rightarrow>
               if colon \<noteq> CHR '':'' then Inl JSONDecodeError
               else (case scan_once n (skip_ws r1) of
                   Inl e \<Rightarrow> Inl e
                 | Inr (v, r2) \<Rightarrow>
                     (case skip_ws r2 of
                        [] \<Rightarrow> Inl JSONDecodeError
                      | nextchar # r3 \<Rightarrow>
                          if nextchar = CHR ''}'' then Inr (JObj (dict_of_pairs (pairs @ [(key, v)])), r3)
                          else if nextchar \<noteq> CHR '','' then Inl JSONDecodeError
                          else (case skip_ws r3 of
                              [] \<Rightarrow> Inl JSONDecodeError
                            | q # r4 \<Rightarrow>
                                if q = CHR 0x22 then object_loop n (pairs @ [(key, v)]) r4
                                else Inl JSONDecodeError)))))"

text \<open>
  \<^verbatim>\<open>json.loads(s)\<close> for a \<^verbatim>\<open>str\<close>: leading whitespace, one value, trailing
  whitespace, and nothing else (\<^verbatim>\<open>Extra data\<close> otherwise). Two steps of recursion
  for each character of the input are a bound that is never used up
  (\<open>json_loads_fuel\<close> below), so the limit the interpreter puts on nesting is the one
  thing this leaves out.
\<close>

definition json_loads :: "string \<Rightarrow> exn + json" where
  "json_loads s =
     (case scan_once (Suc (length s + length s)) (skip_ws s) of
        Inl e \<Rightarrow> Inl e
      | Inr (obj, r) \<Rightarrow> if skip_ws r = [] then Inr obj else Inl JSONDecodeError)"

section \<open>The ComfyUI client\<close>

text \<open>
  \<^verbatim>\<open>comfy_client\<close> is the singleton \<^verbatim>\<open>ComfyServer.get_instance()\<close>; the class lives in
  the module \<^verbatim>\<open>comfy\<close>, outside \<^verbatim>\<open>api/service.py\<close>, and talks to a server with a
  state of its own. The three methods the service awaits are therefore parameters: each
  takes the state of the backend, returns the new state, and either returns a value or
  raises. \<open>'s\<close> is the state of the backend and \<open>'r\<close> the type \<^verbatim>\<open>database.Record\<close>.
  What \<^verbatim>\<open>clean_file\<close> returns is discarded by the service.
\<close>

text \<open>
  Modelled from the spec: \<^verbatim>\<open>upload(bytes)\<close> returns
  \<^verbatim>\<open>{name: string, subfolder: string|empty}\<close>. In the code the response is a dict, of
  which the service reads the entries \<^verbatim>\<open>name\<close> and \<^verbatim>\<open>subfolder\<close>; an empty
  subfolder is the empty string, which the test \<^verbatim>\<open>if resp['subfolder']\<close> takes as false.
\<close>

record upload_resp =
  name :: string
  subfolder :: string

record ('s, 'r) ComfyServer =
  upload_image :: "byte list \<Rightarrow> 's \<Rightarrow> (exn + upload_resp) \<times> 's"
  queue_prompt :: "int \<Rightarrow> json \<Rightarrow> 's \<Rightarrow> (exn + 'r) \<times> 's"
  clean_file :: "bool \<Rightarrow> string \<Rightarrow> 's \<Rightarrow> (exn + pyval) \<times> 's"

text \<open>
  What the module imports: the client, and the text of the two prompt templates
  (\<^verbatim>\<open>workflows.text2img\<close> and \<^verbatim>\<open>workflows.img2img\<close>, not part of the file).
\<close>

record ('s, 'r) env =
  comfy_client :: "('s, 'r) ComfyServer"
  TEXT2IMG_PROMPT_TEMPLATE :: string
  IMG2IMG_PROMPT_TEMPLATE :: string

text \<open>
  A run of an operation is observed through the calls it made on the client, in order and
  with their arguments, what it returned or raised, and the state it left the backend in.
\<close>

datatype call =
    Upload_image "byte list"
  | Queue_prompt int json
  | Clean_file bool string

record ('s, 'r) run =
  outcome :: "exn + 'r"
  calls :: "call list"
  backend :: 's

section \<open>\<^verbatim>\<open>Service\<close>\<close>

definition text2img ::
  "('s, 'r) env \<Rightarrow> int \<Rightarrow> (string \<rightharpoonup> pyval) \<Rightarrow> 's \<Rightarrow> ('s, 'r) run" where
  "text2img env client_task_id params s =
     (let text = dict_get params ''text''
      in case substitute (TEXT2IMG_PROMPT_TEMPLATE env) [''text'' \<mapsto> text] of
           Inl e \<Rightarrow> \<lparr>outcome = Inl e, calls = [], backend = s\<rparr>
         | Inr prompt_str \<Rightarrow>
             (case json_loads prompt_str of
                Inl e \<Rightarrow> \<lparr>outcome = Inl e, calls = [], backend = s\<rparr>
              | Inr prompt_json \<Rightarrow>
                  (case queue_prompt (comfy_client env) client_task_id prompt_json s of
                     (r, s1) \<Rightarrow>
                       \<lparr>outcome = r, calls = [Queue_prompt client_task_id prompt_json],
                        backend = s1\<rparr>)))"

text \<open>
  \<^verbatim>\<open>img2img\<close>. The \<^verbatim>\<open>try\<close> block holds the call of \<^verbatim>\<open>queue_prompt\<close> alone, so the
  \<^verbatim>\<open>finally\<close> clause runs exactly when that call was reached. An exception raised in
  the \<^verbatim>\<open>finally\<close> clause replaces the pending return value or exception.
\<close>

definition img2img ::
  "('s, 'r) env \<Rightarrow> int \<Rightarrow> (string \<rightharpoonup> pyval) \<Rightarrow> 's \<Rightarrow> ('s, 'r) run" where
  "img2img env client_task_id params s =
     (let text = dict_get params ''text'';
          image_base64 = dict_get params ''image''
      in case b64decode image_base64 of
           Inl e \<Rightarrow> \<lparr>outcome = Inl e, calls = [], backend = s\<rparr>
         | Inr image_bytes \<Rightarrow>
             (case upload_image (comfy_client env) image_bytes s of
                (Inl e, s1) \<Rightarrow>
                  \<lparr>outcome = Inl e, calls = [Upload_image image_bytes], backend = s1\<rparr>
              | (Inr resp, s1) \<Rightarrow>
                  (let image_path =
                         (if subfolder resp \<noteq> [] then subfolder resp @ ''/'' @ name resp
                          else name resp)
                   in case substitute (IMG2IMG_PROMPT_TEMPLATE env)
                             [''text'' \<mapsto> text, ''image'' \<mapsto> PStr image_path] of
                        Inl e \<Rightarrow>
                          \<lparr>outcome = Inl e, calls = [Upload_image image_bytes], backend = s1\<rparr>
                      | Inr prompt_str \<Rightarrow>
                          (case json_loads prompt_str of
                             Inl e \<Rightarrow>
                               \<lparr>outcome = Inl e, calls = [Upload_image image_bytes],
                                backend = s1\<rparr>
                           | Inr prompt_json \<Rightarrow>
                               (case queue_prompt (comfy_client env) client_task_id prompt_json s1 of
                                  (r, s2) \<Rightarrow>
                                    (case clean_file (comfy_client env) True image_path s2 of
                                       (Inl e, s3) \<Rightarrow>
                                         \<lparr>outcome = Inl e,
                                          calls = [Upload_image image_bytes,
                                                   Queue_prompt client_task_id prompt_json,
                                                   Clean_file True image_path],
                                          backend = s3\<rparr>
                                     | (Inr _, s3) \<Rightarrow>
                                         \<lparr>outcome = r,
                                          calls = [Upload_image image_bytes,
                                                   Queue_prompt client_task_id prompt_json,
                                                   Clean_file True image_path],
                                          backend = s3\<rparr>))))))"

section \<open>Notions of the specification\<close>

text \<open>
  The renderer of the specification, \<^verbatim>\<open>render(template, substitutions)\<close>: the
  substitution followed by the parsing of its result, the two statements that both
  operations run on their template.
\<close>

definition render :: "string \<Rightarrow> (string \<rightharpoonup> pyval) \<Rightarrow> exn + json" where
  "render template kws =
     (case substitute template kws of
        Inl e \<Rightarrow> Inl e
      | Inr prompt_str \<Rightarrow> json_loads prompt_str)"

text \<open>
  The path of an uploaded asset as the specification composes it: \<^verbatim>\<open>subfolder/name\<close>
  if a subfolder was returned, else \<^verbatim>\<open>name\<close>.
\<close>

definition image_path :: "upload_resp \<Rightarrow> string" where
  "image_path resp =
     (if subfolder resp = [] then name resp else subfolder resp @ ''/'' @ name resp)"

text \<open>What a list of calls uploaded, submitted and deleted.\<close>

fun payloads :: "call list \<Rightarrow> byte list list" where
  "payloads [] = []"
| "payloads (Upload_image b # cs) = b # payloads cs"
| "payloads (_ # cs) = payloads cs"

fun jobs :: "call list \<Rightarrow> json list" where
  "jobs [] = []"
| "jobs (Queue_prompt _ j # cs) = j # jobs cs"
| "jobs (_ # cs) = jobs cs"

fun deletions :: "call list \<Rightarrow> string list" where
  "deletions [] = []"
| "deletions (Clean_file _ p # cs) = p # deletions cs"
| "deletions (_ # cs) = deletions cs"

text \<open>The bytes of an ASCII text, one for each character.\<close>

definition str_bytes :: "string \<Rightarrow> byte list" where
  "str_bytes s = map (\<lambda>c. of_nat (of_char c)) s"

section \<open>A backend for the examples\<close>

text \<open>
  A client whose three methods answer with fixed results and count the requests they
  served, and an environment with two small templates in the format of the workflow
  files: a JSON object with the placeholders inside string literals.
\<close>

definition stub_client ::
  "(exn + upload_resp) \<Rightarrow> (exn + 'r) \<Rightarrow> (exn + pyval) \<Rightarrow> (nat, 'r) ComfyServer" where
  "stub_client u q c =
     \<lparr>upload_image = (\<lambda>image_bytes s. (u, Suc s)),
      queue_prompt = (\<lambda>client_task_id prompt s. (q, Suc s)),
      clean_file = (\<lambda>is_input path s. (c, Suc s))\<rparr>"

definition stub_env ::
  "(exn + upload_resp) \<Rightarrow> (exn + 'r) \<Rightarrow> (exn + pyval) \<Rightarrow> (nat, 'r) env" where
  "stub_env u q c =
     \<lparr>comfy_client = stub_client u q c,
      TEXT2IMG_PROMPT_TEMPLATE = ''{\"prompt\": \"$text\"}'',
      IMG2IMG_PROMPT_TEMPLATE = ''{\"prompt\": \"$text\", \"image\": \"$image\"}''\<rparr>"

section \<open>The control flow of the two operations\<close>

lemmas eval_defs =
  is_idstart_def is_idchar_def prepend_def b64decode_def table_a2b_base64_def
  json_loads_def skip_ws_def is_ws_def dict_of_pairs_def push_char_def render_def
  image_path_def stub_client_def stub_env_def dict_get_def starts_with_def
  match_number_def match_integer_def match_frac_def match_exp_def parse_int_def
  is_digit_def str_bytes_def

lemma text2img_render:
  "text2img env cid params s =
     (case render (TEXT2IMG_PROMPT_TEMPLATE env) [''text'' \<mapsto> dict_get params ''text''] of
        Inl e \<Rightarrow> \<lparr>outcome = Inl e, calls = [], backend = s\<rparr>
      | Inr job \<Rightarrow>
          \<lparr>outcome = fst (queue_prompt (comfy_client env) cid job s),
           calls = [Queue_prompt cid job],
           backend = snd (queue_prompt (comfy_client env) cid job s)\<rparr>)"
  by (simp add: text2img_def render_def split: sum.splits prod.splits)

lemma img2img_decode_error:
  "b64decode (dict_get params ''image'') = Inl e \<Longrightarrow>
   img2img env cid params s = \<lparr>outcome = Inl e, calls = [], backend = s\<rparr>"
  by (simp add: img2img_def)

lemma img2img_upload_error:
  "b64decode (dict_get params ''image'') = Inr image_bytes \<Longrightarrow>
   upload_image (comfy_client env) image_bytes s = (Inl e, s1) \<Longrightarrow>
   img2img env cid params s =
     \<lparr>outcome = Inl e, calls = [Upload_image image_bytes], backend = s1\<rparr>"
  by (simp add: img2img_def)

text \<open>
  A rendering that fails after the upload ends the run there: the substitution and the
  parsing are not inside the \<^verbatim>\<open>try\<close> block.
\<close>

lemma img2img_render_error:
  "b64decode (dict_get params ''image'') = Inr image_bytes \<Longrightarrow>
   upload_image (comfy_client env) image_bytes s = (Inr resp, s1) \<Longrightarrow>
   substitute (IMG2IMG_PROMPT_TEMPLATE env)
     [''text'' \<mapsto> dict_get params ''text'',
      ''image'' \<mapsto> PStr (if subfolder resp \<noteq> [] then subfolder resp @ ''/'' @ name resp
                              else name resp)] = Inr prompt_str \<Longrightarrow>
   json_loads prompt_str = Inl e \<Longrightarrow>
   img2img env cid params s =
     \<lparr>outcome = Inl e, calls = [Upload_image image_bytes], backend = s1\<rparr>"
  by (simp add: img2img_def)

lemma img2img_uploaded:
  "b64decode (dict_get params ''image'') = Inr image_bytes \<Longrightarrow>
   upload_image (comfy_client env) image_bytes s = (Inr resp, s1) \<Longrightarrow>
   img2img env cid params s =
     (case render (IMG2IMG_PROMPT_TEMPLATE env)
             [''text'' \<mapsto> dict_get params ''text'', ''image'' \<mapsto> PStr (image_path resp)] of
        Inl e \<Rightarrow> \<lparr>outcome = Inl e, calls = [Upload_image image_bytes], backend = s1\<rparr>
      | Inr job \<Rightarrow>
          (case queue_prompt (comfy_client env) cid job s1 of
             (r, s2) \<Rightarrow>
               (case clean_file (comfy_client env) True (image_path resp) s2 of
                  (c, s3) \<Rightarrow>
                    \<lparr>outcome = (case c of Inl e \<Rightarrow> Inl e | Inr _ \<Rightarrow> r),
                     calls = [Upload_image image_bytes, Queue_prompt cid job,
                              Clean_file True (image_path resp)],
                     backend = s3\<rparr>)))"
  by (simp add: img2img_def render_def image_path_def split: sum.splits prod.splits)

section \<open>The bound on the recursion of the JSON scanner\<close>

text \<open>
  Every value that is scanned takes at least one character of the input, so the depth of
  the recursion stays below twice the length of the input.
\<close>

lemma skip_ws_length: "length (skip_ws s) \<le> length s"
  by (simp add: skip_ws_def length_dropWhile_le)

lemma skip_ws_Cons: "skip_ws s = c # r \<Longrightarrow> length r < length s"
  using skip_ws_length [of s] by simp

lemma skip_ws_less: "length r < length (skip_ws s) \<Longrightarrow> length r < length s"
  using skip_ws_length [of s] by simp

lemma push_char_Inr: "push_char u x = Inr (c, r) \<Longrightarrow> \<exists>c'. x = Inr (c', r)"
  by (auto simp: push_char_def split: sum.splits)

lemma push_char_Inl: "push_char u x = Inl e \<Longrightarrow> x = Inl e"
  by (auto simp: push_char_def split: sum.splits)

lemma decode_uXXXX_error: "decode_uXXXX s = Inl e \<Longrightarrow> e = JSONDecodeError"
  by (auto simp: decode_uXXXX_def split: list.splits option.splits)

lemma scanstring_shorter: "scanstring s = Inr (c, r) \<Longrightarrow> length r < length s"
proof (induction "length s" arbitrary: s c rule: less_induct)
  case less
  show ?case
  proof (cases s)
    case Nil
    with less.prems show ?thesis by simp
  next
    case (Cons a cs)
    have ih: "\<And>t c'. length t \<le> length cs \<Longrightarrow> scanstring t = Inr (c', r) \<Longrightarrow> length r < length t"
      using less.hyps Cons by simp
    have ih': "\<And>t c'. length t \<le> length cs \<Longrightarrow> scanstring t = Inr (c', r) \<Longrightarrow> length r < length s"
      using ih Cons by fastforce
    from less.prems Cons show ?thesis
      by (auto split: if_splits list.splits option.splits sum.splits
               dest!: push_char_Inr dest: ih' [rotated])
  qed
qed

lemma scanstring_error: "scanstring s = Inl e \<Longrightarrow> e = JSONDecodeError"
proof (induction "length s" arbitrary: s rule: less_induct)
  case less
  show ?case
  proof (cases s)
    case Nil
    with less.prems show ?thesis by simp
  next
    case (Cons a cs)
    have ih: "length t \<le> length cs \<Longrightarrow> scanstring t = Inl e \<Longrightarrow> e = JSONDecodeError" for t
      using less.hyps [of t] Cons by simp
    from less.prems Cons show ?thesis
      by (auto split: if_splits list.splits option.splits sum.splits
               dest!: push_char_Inl decode_uXXXX_error dest: ih [rotated])
  qed
qed


lemma match_integer_shorter: "match_integer s = Some (i, r) \<Longrightarrow> length r < length s"
  using length_dropWhile_le [of is_digit "tl (tl s)"] length_dropWhile_le [of is_digit "tl s"]
  by (cases s) (auto simp: match_integer_def Let_def split: if_splits list.splits)

lemma match_frac_shorter: "match_frac s = (f, r) \<Longrightarrow> length r \<le> length s"
  using length_dropWhile_le [of is_digit "tl (tl s)"]
  by (auto simp: match_frac_def split: if_splits list.splits)

lemma match_exp_shorter: "match_exp s = (f, r) \<Longrightarrow> length r \<le> length s"
  using length_dropWhile_le [of is_digit "tl (tl s)"] length_dropWhile_le [of is_digit "tl s"]
  by (cases s; cases "tl s") (auto simp: match_exp_def Let_def split: if_splits list.splits)

lemma match_number_shorter: "match_number s = Some (v, r) \<Longrightarrow> length r < length s"
  by (fastforce simp: match_number_def Let_def split: option.splits prod.splits if_splits
        dest: match_integer_shorter match_frac_shorter match_exp_shorter)


lemma scan_shorter:
  "(\<forall>s v r. scan_once n s = Inr (v, r) \<longrightarrow> length r < length s)
   \<and> (\<forall>vs s v r. array_loop n vs s = Inr (v, r) \<longrightarrow> length r < length s)
   \<and> (\<forall>ps s v r. object_loop n ps s = Inr (v, r) \<longrightarrow> length r < length s)"
proof (induction n)
  case 0
  show ?case by simp
next
  case (Suc n)
  have so: "scan_once n s = Inr (v, r) \<Longrightarrow> length r < length s" for s v r
    using Suc by blast
  have al: "array_loop n vs s = Inr (v, r) \<Longrightarrow> length r < length s" for vs s v r
    using Suc by blast
  have ol: "object_loop n ps s = Inr (v, r) \<Longrightarrow> length r < length s" for ps s v r
    using Suc by blast
  have 1: "length r < length s" if "scan_once (Suc n) s = Inr (v, r)" for s v r
    using that
    by (auto simp: starts_with_def split: list.splits if_splits sum.splits option.splits
             dest!: scanstring_shorter skip_ws_Cons al ol match_number_shorter skip_ws_less)
  have 2: "length r < length s" if "array_loop (Suc n) vs s = Inr (v, r)" for vs s v r
    using that
    by (auto split: list.splits if_splits sum.splits
             dest!: so skip_ws_Cons al skip_ws_less)
  have 3: "length r < length s" if "object_loop (Suc n) ps s = Inr (v, r)" for ps s v r
    using that
    by (auto split: list.splits if_splits sum.splits
             dest!: scanstring_shorter so skip_ws_Cons ol skip_ws_less)
  from 1 2 3 show ?case by blast
qed


lemma scan_once_shorter: "scan_once n s = Inr (v, r) \<Longrightarrow> length r < length s"
  using scan_shorter [of n] by blast


lemma if_neq: "a \<noteq> x \<Longrightarrow> b \<noteq> x \<Longrightarrow> (if c then a else b) \<noteq> x"
  by simp

lemma scan_once_fuel_step:
  assumes al: "\<And>vs s. 2 * length s + 1 < n \<Longrightarrow> array_loop n vs s \<noteq> Inl RecursionError"
    and ol: "\<And>ps s. 2 * length s + 1 < n \<Longrightarrow> object_loop n ps s \<noteq> Inl RecursionError"
    and len: "2 * length s < Suc n"
  shows "scan_once (Suc n) s \<noteq> Inl RecursionError"
proof (cases s)
  case Nil
  then show ?thesis by simp
next
  case (Cons nextchar rest)
  have a: "array_loop n [] (c # r) \<noteq> Inl RecursionError" if "skip_ws rest = c # r" for c r
  proof -
    have "length (c # r) \<le> length rest" using skip_ws_length [of rest] that by simp
    with len Cons show ?thesis by (intro al) simp
  qed
  have b: "object_loop n [] r \<noteq> Inl RecursionError" if "skip_ws rest = c # r" for c r
  proof -
    have "length r < length rest" using skip_ws_Cons [OF that] .
    with len Cons show ?thesis by (intro ol) simp
  qed
  have str: "(case scanstring rest of Inl e \<Rightarrow> Inl e | Inr (content, r) \<Rightarrow> Inr (JStr content, r))
               \<noteq> Inl RecursionError"
    by (auto split: sum.splits dest: scanstring_error)
  have obj: "(case skip_ws rest of
               [] \<Rightarrow> Inl JSONDecodeError
             | c # r \<Rightarrow>
                 if c = CHR ''}'' then Inr (JObj [], r)
                 else if c = CHR 0x22 then object_loop n [] r
                 else Inl JSONDecodeError) \<noteq> Inl RecursionError"
    by (auto split: list.splits simp: b)
  have arr: "(case skip_ws rest of
               [] \<Rightarrow> Inl JSONDecodeError
             | c # r \<Rightarrow>
                 if c = CHR '']'' then Inr (JArr [], r)
                 else array_loop n [] (c # r)) \<noteq> Inl RecursionError"
    by (auto split: list.splits simp: a)
  have num: "(case match_number s of
              Some res \<Rightarrow> Inr res
            | None \<Rightarrow>
                if starts_with s ''NaN'' then Inr (JFloat ''NaN'', drop 3 s)
                else if starts_with s ''Infinity'' then Inr (JFloat ''Infinity'', drop 8 s)
                else if starts_with s ''-Infinity'' then Inr (JFloat ''-Infinity'', drop 9 s)
                else Inl JSONDecodeError) \<noteq> Inl RecursionError"
    by (simp split: option.splits)
  show ?thesis
    unfolding Cons scan_once.simps list.case
    by (intro if_neq str obj arr num [unfolded Cons]) simp_all
qed


lemma array_loop_fuel_step:
  assumes so: "\<And>s. 2 * length s < n \<Longrightarrow> scan_once n s \<noteq> Inl RecursionError"
    and al: "\<And>vs s. 2 * length s + 1 < n \<Longrightarrow> array_loop n vs s \<noteq> Inl RecursionError"
    and len: "2 * length s + 1 < Suc n"
  shows "array_loop (Suc n) vs s \<noteq> Inl RecursionError"
proof (cases "scan_once n s")
  case (Inl e)
  moreover have "scan_once n s \<noteq> Inl RecursionError" using len by (intro so) simp
  ultimately show ?thesis by simp
next
  case (Inr res)
  obtain v r where res: "res = (v, r)" by (cases res)
  have "length r < length s" using scan_once_shorter Inr res by blast
  show ?thesis
  proof (cases "skip_ws r")
    case Nil
    with Inr res show ?thesis by simp
  next
    case (Cons c r1)
    have "length r1 < length r" using skip_ws_Cons [OF Cons] .
    moreover have "length (skip_ws r1) \<le> length r1" by (rule skip_ws_length)
    ultimately have "array_loop n (vs @ [v]) (skip_ws r1) \<noteq> Inl RecursionError"
      using \<open>length r < length s\<close> len by (intro al) simp
    with Inr res Cons show ?thesis by simp
  qed
qed

lemma object_loop_fuel_step:
  assumes so: "\<And>s. 2 * length s < n \<Longrightarrow> scan_once n s \<noteq> Inl RecursionError"
    and ol: "\<And>ps s. 2 * length s + 1 < n \<Longrightarrow> object_loop n ps s \<noteq> Inl RecursionError"
    and len: "2 * length s + 1 < Suc n"
  shows "object_loop (Suc n) ps s \<noteq> Inl RecursionError"
proof (cases "scanstring s")
  case (Inl e)
  then show ?thesis using scanstring_error [OF Inl] by simp
next
  case (Inr res)
  obtain key r where res: "res = (key, r)" by (cases res)
  have l0: "length r < length s" using scanstring_shorter Inr res by blast
  show ?thesis
  proof (cases "skip_ws r")
    case Nil
    with Inr res show ?thesis by simp
  next
    case (Cons colon r1)
    have l1: "length r1 < length r" using skip_ws_Cons [OF Cons] .
    have l2: "length (skip_ws r1) \<le> length r1" by (rule skip_ws_length)
    show ?thesis
    proof (cases "scan_once n (skip_ws r1)")
      case inl: (Inl e)
      moreover have "scan_once n (skip_ws r1) \<noteq> Inl RecursionError"
        using l0 l1 l2 len by (intro so) simp
      ultimately show ?thesis using Inr res Cons by simp
    next
      case inr: (Inr res2)
      obtain v r2 where res2: "res2 = (v, r2)" by (cases res2)
      have l3: "length r2 < length (skip_ws r1)" using scan_once_shorter inr res2 by blast
      show ?thesis
      proof (cases "skip_ws r2")
        case Nil
        with Inr res Cons inr res2 show ?thesis by simp
      next
        case c2: (Cons nextchar r3)
        have l4: "length r3 < length r2" using skip_ws_Cons [OF c2] .
        show ?thesis
        proof (cases "skip_ws r3")
          case Nil
          with Inr res Cons inr res2 c2 show ?thesis by simp
        next
          case c3: (Cons q r4)
          have l5: "length r4 < length r3" using skip_ws_Cons [OF c3] .
          have "object_loop n (ps @ [(key, v)]) r4 \<noteq> Inl RecursionError"
            using l0 l1 l2 l3 l4 l5 len by (intro ol) simp
          with Inr res Cons inr res2 c2 c3 show ?thesis by simp
        qed
      qed
    qed
  qed
qed

lemma scan_fuel:
  "(\<forall>s. 2 * length s < n \<longrightarrow> scan_once n s \<noteq> Inl RecursionError)
   \<and> (\<forall>vs s. 2 * length s + 1 < n \<longrightarrow> array_loop n vs s \<noteq> Inl RecursionError)
   \<and> (\<forall>ps s. 2 * length s + 1 < n \<longrightarrow> object_loop n ps s \<noteq> Inl RecursionError)"
proof (induction n)
  case 0
  show ?case by simp
next
  case (Suc n)
  have so: "2 * length s < n \<Longrightarrow> scan_once n s \<noteq> Inl RecursionError" for s
    using Suc by blast
  have al: "2 * length s + 1 < n \<Longrightarrow> array_loop n vs s \<noteq> Inl RecursionError" for vs s
    using Suc by blast
  have ol: "2 * length s + 1 < n \<Longrightarrow> object_loop n ps s \<noteq> Inl RecursionError" for ps s
    using Suc by blast
  show ?case
  proof (intro conjI allI impI)
    fix s :: string
    assume "2 * length s < Suc n"
    with al ol show "scan_once (Suc n) s \<noteq> Inl RecursionError" by (rule scan_once_fuel_step)
  next
    fix vs and s :: string
    assume "2 * length s + 1 < Suc n"
    with so al show "array_loop (Suc n) vs s \<noteq> Inl RecursionError" by (rule array_loop_fuel_step)
  next
    fix ps and s :: string
    assume "2 * length s + 1 < Suc n"
    with so ol show "object_loop (Suc n) ps s \<noteq> Inl RecursionError" by (rule object_loop_fuel_step)
  qed
qed

text \<open>The bound that \<open>json_loads\<close> starts with is never used up.\<close>

lemma json_loads_fuel: "json_loads s \<noteq> Inl RecursionError"
proof -
  have "2 * length (skip_ws s) < Suc (length s + length s)"
    using skip_ws_length [of s] by simp
  then have "scan_once (Suc (length s + length s)) (skip_ws s) \<noteq> Inl RecursionError"
    by (rule scan_fuel [THEN conjunct1, rule_format])
  then show ?thesis
    unfolding json_loads_def
    by (cases "scan_once (Suc (length s + length s)) (skip_ws s)") (simp_all split: prod.splits)
qed

section \<open>Properties of \<^verbatim>\<open>string.Template.substitute\<close>\<close>

lemma prepend_prepend: "prepend p (prepend q r) = prepend (p @ q) r"
  by (cases r) (simp_all add: prepend_def)

lemma prepend_Nil: "prepend [] r = r"
  by (cases r) (simp_all add: prepend_def)

text \<open>Text without a delimiter is copied.\<close>

lemma substitute_literal:
  "CHR ''$'' \<notin> set pre \<Longrightarrow> substitute (pre @ t) kws = prepend pre (substitute t kws)"
  by (induction pre) (auto simp: prepend_Nil prepend_prepend)

lemma dropWhile_self: "takeWhile P xs = [] \<Longrightarrow> dropWhile P xs = xs"
  by (cases xs) (auto split: if_splits)

text \<open>The placeholder \<^verbatim>\<open>$text\<close>, when no character of a name follows it.\<close>

lemma substitute_text:
  assumes "kws ''text'' = Some v" and "takeWhile is_idchar post = []"
  shows "substitute (''$text'' @ post) kws = prepend (py_str v) (substitute post kws)"
proof -
  have t: "takeWhile is_idchar (''text'' @ post) = ''text''"
    using assms(2) by (simp add: is_idchar_def is_idstart_def)
  have d: "dropWhile is_idchar (''text'' @ post) = post"
    using dropWhile_self [OF assms(2)] by (simp add: is_idchar_def is_idstart_def)
  have "substitute (CHR ''$'' # (''text'' @ post)) kws = prepend (py_str v) (substitute post kws)"
    apply (subst substitute.simps(2))
    apply (simp only: t d)
    using assms(1) apply (simp add: is_idstart_def)
    done
  then show ?thesis by simp
qed





section \<open>The claims\<close>

text \<open>
  Claim C1. In an image-to-image request whose upload succeeds and whose rendering fails,
  the operation should still call \<^verbatim>\<open>clean_file\<close> for the path of the uploaded asset
  before the failure reaches the caller. The code does not: the substitution and the
  parsing stand before the \<^verbatim>\<open>try\<close> block, so their exception leaves \<^verbatim>\<open>img2img\<close>
  without passing through the \<^verbatim>\<open>finally\<close> clause. Here the text holds a double quote,
  the substituted template is not JSON, and the run ends after the upload: the file
  \<^verbatim>\<open>x/a.png\<close> stays on the backend.
\<close>

theorem img2img_render_failure_skips_cleanup:
  "img2img (stub_env (Inr \<lparr>name = ''a.png'', subfolder = ''x''\<rparr>) (Inr ''job-1'') (Inr PNone)) 9
     [''text'' \<mapsto> PStr ''say \"hi\"'', ''image'' \<mapsto> PStr ''QQ==''] 0
   = \<lparr>outcome = Inl JSONDecodeError, calls = [Upload_image [0x41]], backend = 1\<rparr>"
  by (simp add: img2img_def eval_defs)

text \<open>
  Claim C2, as the code has it. In an image-to-image request whose upload, rendering and
  submission succeed, the operation returns the record that \<^verbatim>\<open>queue_prompt\<close> produced
  if \<^verbatim>\<open>clean_file\<close> returns, whatever it returns; if \<^verbatim>\<open>clean_file\<close> raises, its
  exception reaches the caller in place of the record.
\<close>

theorem cleanup_decides_outcome:
  assumes "b64decode (dict_get params ''image'') = Inr image_bytes"
    and "upload_image (comfy_client env) image_bytes s = (Inr resp, s1)"
    and "render (IMG2IMG_PROMPT_TEMPLATE env)
           [''text'' \<mapsto> dict_get params ''text'', ''image'' \<mapsto> PStr (image_path resp)] = Inr job"
    and "queue_prompt (comfy_client env) cid job s1 = (Inr record, s2)"
  shows "outcome (img2img env cid params s)
           = (case fst (clean_file (comfy_client env) True (image_path resp) s2) of
                Inl e \<Rightarrow> Inl e
              | Inr _ \<Rightarrow> Inr record)"
  by (simp add: img2img_uploaded [OF assms(1,2)] assms(3,4) split: prod.splits)

text \<open>An instance where \<^verbatim>\<open>clean_file\<close> returns, and the record comes back.\<close>

theorem cleanup_decides_outcome_witness:
  "outcome (img2img (stub_env (Inr \<lparr>name = ''a.png'', subfolder = ''x''\<rparr>) (Inr ''job-1'') (Inr PNone)) 9
     [''text'' \<mapsto> PStr ''make it winter'', ''image'' \<mapsto> PStr ''QQ==''] 0)
   = Inr ''job-1''"
proof -
  let ?env = "stub_env (Inr \<lparr>name = ''a.png'', subfolder = ''x''\<rparr>) (Inr ''job-1'') (Inr PNone)
                :: (nat, string) env"
  let ?params = "[''text'' \<mapsto> PStr ''make it winter'', ''image'' \<mapsto> PStr ''QQ=='']"
  let ?job = "JObj [(ustr ''prompt'', JStr (ustr ''make it winter'')),
                    (ustr ''image'', JStr (ustr ''x/a.png''))]"
  have h1: "b64decode (dict_get ?params ''image'') = Inr [0x41]"
    by (simp add: eval_defs)
  have h2: "upload_image (comfy_client ?env) [0x41] 0 = (Inr \<lparr>name = ''a.png'', subfolder = ''x''\<rparr>, 1)"
    by (simp add: eval_defs)
  have h3: "render (IMG2IMG_PROMPT_TEMPLATE ?env)
              [''text'' \<mapsto> dict_get ?params ''text'',
               ''image'' \<mapsto> PStr (image_path \<lparr>name = ''a.png'', subfolder = ''x''\<rparr>)] = Inr ?job"
    by (simp add: eval_defs)
  have h4: "queue_prompt (comfy_client ?env) 9 ?job 1 = (Inr ''job-1'', 2)"
    by (simp add: eval_defs)
  show ?thesis
    using cleanup_decides_outcome [OF h1 h2 h3 h4] by (simp add: eval_defs)
qed

text \<open>
  Claim C2 as stated fails: upload and submission succeed, \<^verbatim>\<open>clean_file\<close> raises, and
  the caller gets that exception, not the record \<^verbatim>\<open>job-1\<close> of the submission.
\<close>

theorem cleanup_failure_counterexample:
  "img2img (stub_env (Inr \<lparr>name = ''a.png'', subfolder = ''x''\<rparr>) (Inr ''job-1'')
              (Inl (Raised ''cleanup failed''))) 9
     [''text'' \<mapsto> PStr ''make it winter'', ''image'' \<mapsto> PStr ''QQ==''] 0
   = \<lparr>outcome = Inl (Raised ''cleanup failed''),
      calls = [Upload_image [0x41],
               Queue_prompt 9 (JObj [(ustr ''prompt'', JStr (ustr ''make it winter'')),
                                     (ustr ''image'', JStr (ustr ''x/a.png''))]),
               Clean_file True ''x/a.png''],
      backend = 3\<rparr>"
  by (simp add: img2img_def eval_defs)

text \<open>
  Claim C3, as the code has it. In an image-to-image request whose upload and rendering
  succeed and whose submission fails, \<^verbatim>\<open>clean_file\<close> is called exactly once, with the
  path of the uploaded asset, after the submission and before the operation ends. If
  \<^verbatim>\<open>clean_file\<close> returns, the submission error reaches the caller; if \<^verbatim>\<open>clean_file\<close>
  raises as well, its exception reaches the caller in place of the submission error.
\<close>

theorem submit_failure_cleans_up:
  assumes "b64decode (dict_get params ''image'') = Inr image_bytes"
    and "upload_image (comfy_client env) image_bytes s = (Inr resp, s1)"
    and "render (IMG2IMG_PROMPT_TEMPLATE env)
           [''text'' \<mapsto> dict_get params ''text'', ''image'' \<mapsto> PStr (image_path resp)] = Inr job"
    and "queue_prompt (comfy_client env) cid job s1 = (Inl e, s2)"
  shows "calls (img2img env cid params s)
           = [Upload_image image_bytes, Queue_prompt cid job, Clean_file True (image_path resp)]
       \<and> deletions (calls (img2img env cid params s)) = [image_path resp]
       \<and> outcome (img2img env cid params s)
           = (case fst (clean_file (comfy_client env) True (image_path resp) s2) of
                Inl e' \<Rightarrow> Inl e'
              | Inr _ \<Rightarrow> Inl e)"
  by (simp add: img2img_uploaded [OF assms(1,2)] assms(3,4) split: prod.splits)

theorem submit_failure_cleans_up_witness:
  "img2img (stub_env (Inr \<lparr>name = ''a.png'', subfolder = ''x''\<rparr>)
              (Inl (Raised ''queue refused'')) (Inr PNone)
            :: (nat, string) env) 9
     [''text'' \<mapsto> PStr ''make it winter'', ''image'' \<mapsto> PStr ''QQ==''] 0
   = \<lparr>outcome = Inl (Raised ''queue refused''),
      calls = [Upload_image [0x41],
               Queue_prompt 9 (JObj [(ustr ''prompt'', JStr (ustr ''make it winter'')),
                                     (ustr ''image'', JStr (ustr ''x/a.png''))]),
               Clean_file True ''x/a.png''],
      backend = 3\<rparr>"
proof -
  let ?resp = "\<lparr>name = ''a.png'', subfolder = ''x''\<rparr>"
  let ?env = "stub_env (Inr ?resp) (Inl (Raised ''queue refused'')) (Inr PNone) :: (nat, string) env"
  let ?params = "[''text'' \<mapsto> PStr ''make it winter'', ''image'' \<mapsto> PStr ''QQ=='']"
  let ?job = "JObj [(ustr ''prompt'', JStr (ustr ''make it winter'')),
                    (ustr ''image'', JStr (ustr ''x/a.png''))]"
  have h1: "b64decode (dict_get ?params ''image'') = Inr [0x41]"
    by (simp add: eval_defs)
  have h2: "upload_image (comfy_client ?env) [0x41] 0 = (Inr ?resp, 1)"
    by (simp add: eval_defs)
  have h3: "render (IMG2IMG_PROMPT_TEMPLATE ?env)
              [''text'' \<mapsto> dict_get ?params ''text'', ''image'' \<mapsto> PStr (image_path ?resp)]
            = Inr ?job"
    by (simp add: eval_defs)
  have h4: "queue_prompt (comfy_client ?env) 9 ?job 1 = (Inl (Raised ''queue refused''), 2)"
    by (simp add: eval_defs)
  have b: "backend (img2img ?env 9 ?params 0) = 3"
    by (simp add: img2img_def eval_defs)
  show ?thesis
    using submit_failure_cleans_up [OF h1 h2 h3 h4] b
    by (cases "img2img ?env 9 ?params 0") (simp add: eval_defs)
qed

text \<open>
  Claim C3 as stated fails: upload and rendering succeed, the submission raises,
  \<^verbatim>\<open>clean_file\<close> is called once with the path and raises too, and the caller gets the
  exception of the cleanup, not the submission error.
\<close>

theorem submit_failure_counterexample:
  "img2img (stub_env (Inr \<lparr>name = ''a.png'', subfolder = ''x''\<rparr>)
              (Inl (Raised ''queue refused'')) (Inl (Raised ''cleanup failed''))
            :: (nat, string) env) 9
     [''text'' \<mapsto> PStr ''make it winter'', ''image'' \<mapsto> PStr ''QQ==''] 0
   = \<lparr>outcome = Inl (Raised ''cleanup failed''),
      calls = [Upload_image [0x41],
               Queue_prompt 9 (JObj [(ustr ''prompt'', JStr (ustr ''make it winter'')),
                                     (ustr ''image'', JStr (ustr ''x/a.png''))]),
               Clean_file True ''x/a.png''],
      backend = 3\<rparr>
   \<and> Raised ''cleanup failed'' \<noteq> Raised ''queue refused''"
  by (simp add: img2img_def eval_defs)

text \<open>
  Claim C4, as the code has it. Rendering does not escape: \<^verbatim>\<open>substitute\<close> puts
  \<^verbatim>\<open>str(text)\<close> in the place of \<^verbatim>\<open>$text\<close> as it is, and the job is what
  \<^verbatim>\<open>json.loads\<close> reads from the template text with that raw value in it. So a rendering
  that succeeds gives well-formed JSON, but the characters of the text take part in its
  syntax: they can end the string literal they were put in, add members to the job, or make
  the parsing fail. Here \<open>pre\<close> is the template before the placeholder, free of
  delimiters, and \<open>post\<close> the template after it.
\<close>

theorem render_inserts_raw_text:
  assumes "CHR ''$'' \<notin> set pre" and "takeWhile is_idchar post = []" and "kws ''text'' = Some v"
  shows "render (pre @ ''$text'' @ post) kws =
           (case substitute post kws of
              Inl e \<Rightarrow> Inl e
            | Inr rest \<Rightarrow> json_loads (pre @ py_str v @ rest))"
proof -
  have "substitute (pre @ ''$text'' @ post) kws
          = prepend pre (prepend (py_str v) (substitute post kws))"
    unfolding substitute_literal [OF assms(1)]
      substitute_text [where kws = kws and v = v, OF assms(3,2)]
    by (rule refl)
  then show ?thesis
    unfolding render_def by (cases "substitute post kws") (simp_all add: prepend_def)
qed

text \<open>An instance: a text with a quote in it, and the JSON text that is parsed.\<close>

theorem render_inserts_raw_text_witness:
  "render ''{\"prompt\": \"$text\"}'' [''text'' \<mapsto> PStr ''say \"hi\"'']
     = json_loads ''{\"prompt\": \"say \"hi\"\"}''
   \<and> json_loads ''{\"prompt\": \"say \"hi\"\"}'' = Inl JSONDecodeError"
proof -
  have h1: "CHR ''$'' \<notin> set ''{\"prompt\": \"''" by simp
  have h2: "takeWhile is_idchar ''\"}'' = []" by (simp add: eval_defs)
  have h3: "[''text'' \<mapsto> PStr ''say \"hi\"''] ''text'' = Some (PStr ''say \"hi\"'')" by simp
  have "render ''{\"prompt\": \"$text\"}'' [''text'' \<mapsto> PStr ''say \"hi\"'']
          = json_loads ''{\"prompt\": \"say \"hi\"\"}''"
    using render_inserts_raw_text
            [where kws = "[''text'' \<mapsto> PStr ''say \"hi\"'']" and v = "PStr ''say \"hi\"''",
             OF h1 h2 h3]
    by (simp add: prepend_def)
  moreover have "json_loads ''{\"prompt\": \"say \"hi\"\"}'' = Inl JSONDecodeError"
    by (simp add: eval_defs)
  ultimately show ?thesis by simp
qed

text \<open>
  Claim C4 as stated fails: the text \<^verbatim>\<open>x", "seed": "0\<close> is substituted without
  escaping, and the job that is submitted has a member \<^verbatim>\<open>seed\<close> that the template
  does not have. With escaping, the job would have the one member \<^verbatim>\<open>prompt\<close>, holding
  the whole text.
\<close>

theorem render_escaping_counterexample:
  "substitute ''{\"prompt\": \"$text\"}'' [''text'' \<mapsto> PStr ''x\", \"seed\": \"0'']
     = Inr ''{\"prompt\": \"x\", \"seed\": \"0\"}''
   \<and> text2img (stub_env (Inl (Raised ''unused'')) (Inr ''job-1'') (Inr PNone)) 7
        [''text'' \<mapsto> PStr ''x\", \"seed\": \"0''] 0
     = \<lparr>outcome = Inr ''job-1'',
        calls = [Queue_prompt 7 (JObj [(ustr ''prompt'', JStr (ustr ''x'')),
                                       (ustr ''seed'', JStr (ustr ''0''))])],
        backend = 1\<rparr>"
  by (simp add: text2img_def eval_defs)

text \<open>
  Claim C5, as the code has it. The operation decodes the image itself: the payload that
  goes to \<^verbatim>\<open>upload_image\<close> is \<^verbatim>\<open>base64.b64decode(params.get('image'))\<close>, the first
  call of the run and its only upload. If the decoding raises, the exception reaches the
  caller and no call is made on the backend.
\<close>

theorem upload_payload_is_decoded:
  "(case b64decode (dict_get params ''image'') of
      Inl e \<Rightarrow> img2img env cid params s = \<lparr>outcome = Inl e, calls = [], backend = s\<rparr>
    | Inr image_bytes \<Rightarrow>
        payloads (calls (img2img env cid params s)) = [image_bytes]
        \<and> hd (calls (img2img env cid params s)) = Upload_image image_bytes)"
proof (cases "b64decode (dict_get params ''image'')")
  case (Inl e)
  then show ?thesis by (simp add: img2img_decode_error)
next
  case (Inr image_bytes)
  obtain u s1 where up: "upload_image (comfy_client env) image_bytes s = (u, s1)"
    by (cases "upload_image (comfy_client env) image_bytes s")
  show ?thesis
  proof (cases u)
    case (Inl e)
    with Inr up show ?thesis by (simp add: img2img_upload_error)
  next
    case resp: (Inr resp)
    with Inr up show ?thesis
      by (simp add: img2img_uploaded split: sum.splits prod.splits)
  qed
qed

text \<open>Two instances: a payload that decodes to the bytes of \<^verbatim>\<open>hi\<close>, and no payload.\<close>

theorem upload_payload_is_decoded_witness:
  "payloads (calls (img2img (stub_env (Inr \<lparr>name = ''a.png'', subfolder = ''x''\<rparr>)
                              (Inr ''job-1'') (Inr PNone)) 9
                     [''text'' \<mapsto> PStr ''make it winter'', ''image'' \<mapsto> PStr ''aGk=''] 0))
     = [[0x68, 0x69]]
   \<and> img2img (stub_env (Inr \<lparr>name = ''a.png'', subfolder = ''x''\<rparr>) (Inr ''job-1'') (Inr PNone)) 9
        [''text'' \<mapsto> PStr ''make it winter''] 0
     = \<lparr>outcome = Inl TypeError, calls = [], backend = 0\<rparr>"
proof -
  let ?env = "stub_env (Inr \<lparr>name = ''a.png'', subfolder = ''x''\<rparr>) (Inr ''job-1'') (Inr PNone)
                :: (nat, string) env"
  have d1: "b64decode (dict_get [''text'' \<mapsto> PStr ''make it winter'', ''image'' \<mapsto> PStr ''aGk='']
              ''image'') = Inr [0x68, 0x69]"
    by (simp add: eval_defs)
  have d2: "b64decode (dict_get [''text'' \<mapsto> PStr ''make it winter''] ''image'') = Inl TypeError"
    by (simp add: eval_defs)
  have "payloads (calls (img2img ?env 9
          [''text'' \<mapsto> PStr ''make it winter'', ''image'' \<mapsto> PStr ''aGk=''] 0)) = [[0x68, 0x69]]"
    using upload_payload_is_decoded
            [where params = "[''text'' \<mapsto> PStr ''make it winter'', ''image'' \<mapsto> PStr ''aGk='']"
               and env = ?env and cid = 9 and s = 0]
    unfolding d1 by simp
  moreover have "img2img ?env 9 [''text'' \<mapsto> PStr ''make it winter''] 0
                   = \<lparr>outcome = Inl TypeError, calls = [], backend = 0\<rparr>"
    using upload_payload_is_decoded
            [where params = "[''text'' \<mapsto> PStr ''make it winter'']"
               and env = ?env and cid = 9 and s = 0]
    unfolding d2 by simp
  ultimately show ?thesis by simp
qed

text \<open>
  Claim C5 as stated fails: the caller supplies the four characters \<^verbatim>\<open>QQ==\<close>, and the
  payload of the upload is the single byte that they encode.
\<close>

theorem upload_payload_counterexample:
  "payloads (calls (img2img (stub_env (Inr \<lparr>name = ''a.png'', subfolder = ''x''\<rparr>)
                              (Inr ''job-1'') (Inr PNone)) 9
                     [''text'' \<mapsto> PStr ''make it winter'', ''image'' \<mapsto> PStr ''QQ==''] 0))
     = [[0x41]]
   \<and> str_bytes ''QQ=='' = [0x51, 0x51, 0x3D, 0x3D]"
  by (simp add: img2img_def eval_defs)

text \<open>
  Claim C6. After a successful upload, the path that is substituted for \<^verbatim>\<open>$image\<close>
  and the path that is deleted are the same: \<^verbatim>\<open>subfolder/name\<close> when the subfolder of
  the response is not empty, \<^verbatim>\<open>name\<close> when it is.
\<close>

theorem image_path_composition:
  assumes "b64decode (dict_get params ''image'') = Inr image_bytes"
    and "upload_image (comfy_client env) image_bytes s = (Inr resp, s1)"
  shows "calls (img2img env cid params s) =
           (let path = (if subfolder resp \<noteq> [] then subfolder resp @ ''/'' @ name resp
                        else name resp)
            in case render (IMG2IMG_PROMPT_TEMPLATE env)
                      [''text'' \<mapsto> dict_get params ''text'', ''image'' \<mapsto> PStr path] of
                 Inl e \<Rightarrow> [Upload_image image_bytes]
               | Inr job \<Rightarrow>
                   [Upload_image image_bytes, Queue_prompt cid job, Clean_file True path])"
  by (simp add: img2img_uploaded [OF assms] image_path_def split: sum.splits prod.splits)

text \<open>The two examples of the specification: subfolder \<^verbatim>\<open>x\<close>, and no subfolder.\<close>

theorem image_path_composition_witness:
  "calls (img2img (stub_env (Inr \<lparr>name = ''a.png'', subfolder = ''x''\<rparr>) (Inr ''job-1'') (Inr PNone)) 9
            [''text'' \<mapsto> PStr ''make it winter'', ''image'' \<mapsto> PStr ''QQ==''] 0)
     = [Upload_image [0x41],
        Queue_prompt 9 (JObj [(ustr ''prompt'', JStr (ustr ''make it winter'')),
                              (ustr ''image'', JStr (ustr ''x/a.png''))]),
        Clean_file True ''x/a.png'']
   \<and> calls (img2img (stub_env (Inr \<lparr>name = ''a.png'', subfolder = ''''\<rparr>) (Inr ''job-1'') (Inr PNone)) 9
            [''text'' \<mapsto> PStr ''make it winter'', ''image'' \<mapsto> PStr ''QQ==''] 0)
     = [Upload_image [0x41],
        Queue_prompt 9 (JObj [(ustr ''prompt'', JStr (ustr ''make it winter'')),
                              (ustr ''image'', JStr (ustr ''a.png''))]),
        Clean_file True ''a.png'']"
proof -
  let ?params = "[''text'' \<mapsto> PStr ''make it winter'', ''image'' \<mapsto> PStr ''QQ=='']"
  let ?r1 = "\<lparr>name = ''a.png'', subfolder = ''x''\<rparr>"
  let ?r2 = "\<lparr>name = ''a.png'', subfolder = ''''\<rparr>"
  let ?env1 = "stub_env (Inr ?r1) (Inr ''job-1'') (Inr PNone) :: (nat, string) env"
  let ?env2 = "stub_env (Inr ?r2) (Inr ''job-1'') (Inr PNone) :: (nat, string) env"
  have d: "b64decode (dict_get ?params ''image'') = Inr [0x41]"
    by (simp add: eval_defs)
  have u1: "upload_image (comfy_client ?env1) [0x41] 0 = (Inr ?r1, 1)"
    by (simp add: eval_defs)
  have u2: "upload_image (comfy_client ?env2) [0x41] 0 = (Inr ?r2, 1)"
    by (simp add: eval_defs)
  show ?thesis
    using image_path_composition [OF d u1, of 9] image_path_composition [OF d u2, of 9]
    by (simp add: eval_defs)
qed

text \<open>
  Claim C7. In an image-to-image request whose upload fails, the operation submits
  nothing and deletes nothing, and the exception of the upload reaches the caller as it is.
\<close>

theorem upload_failure_aborts:
  assumes "b64decode (dict_get params ''image'') = Inr image_bytes"
    and "upload_image (comfy_client env) image_bytes s = (Inl e, s1)"
  shows "outcome (img2img env cid params s) = Inl e
       \<and> calls (img2img env cid params s) = [Upload_image image_bytes]
       \<and> jobs (calls (img2img env cid params s)) = []
       \<and> deletions (calls (img2img env cid params s)) = []"
  by (simp add: img2img_upload_error [OF assms])

theorem upload_failure_aborts_witness:
  "outcome (img2img (stub_env (Inl (Raised ''upload refused'')) (Inr ''job-1'') (Inr PNone)) 9
              [''text'' \<mapsto> PStr ''make it winter'', ''image'' \<mapsto> PStr ''QQ==''] 0)
     = (Inl (Raised ''upload refused'') :: exn + string)
   \<and> calls (img2img (stub_env (Inl (Raised ''upload refused'')) (Inr ''job-1'') (Inr PNone)
                     :: (nat, string) env) 9
              [''text'' \<mapsto> PStr ''make it winter'', ''image'' \<mapsto> PStr ''QQ==''] 0)
     = [Upload_image [0x41]]"
proof -
  let ?params = "[''text'' \<mapsto> PStr ''make it winter'', ''image'' \<mapsto> PStr ''QQ=='']"
  let ?env = "stub_env (Inl (Raised ''upload refused'')) (Inr ''job-1'') (Inr PNone)
                :: (nat, string) env"
  have d: "b64decode (dict_get ?params ''image'') = Inr [0x41]"
    by (simp add: eval_defs)
  have u: "upload_image (comfy_client ?env) [0x41] 0 = (Inl (Raised ''upload refused''), 1)"
    by (simp add: eval_defs)
  show ?thesis
    using upload_failure_aborts [OF d u, of 9] by simp
qed

text \<open>
  Claim C8. A text-to-image request renders its template once and, if that succeeds,
  submits the rendered job once; it neither uploads nor deletes. If the rendering fails,
  the exception reaches the caller and no call is made on the backend, whose state is
  untouched.
\<close>

theorem text2img_render_then_submit:
  "(case render (TEXT2IMG_PROMPT_TEMPLATE env) [''text'' \<mapsto> dict_get params ''text''] of
      Inl e \<Rightarrow> text2img env cid params s = \<lparr>outcome = Inl e, calls = [], backend = s\<rparr>
    | Inr job \<Rightarrow>
        calls (text2img env cid params s) = [Queue_prompt cid job]
        \<and> outcome (text2img env cid params s) = fst (queue_prompt (comfy_client env) cid job s)
        \<and> backend (text2img env cid params s) = snd (queue_prompt (comfy_client env) cid job s))"
  by (simp add: text2img_render split: sum.splits)

text \<open>The example of the specification, and a text that breaks the JSON syntax.\<close>

theorem text2img_render_then_submit_witness:
  "calls (text2img (stub_env (Inl (Raised ''unused'')) (Inr ''job-1'') (Inr PNone)) 7
            [''text'' \<mapsto> PStr ''a red fox''] 0)
     = [Queue_prompt 7 (JObj [(ustr ''prompt'', JStr (ustr ''a red fox''))])]
   \<and> text2img (stub_env (Inl (Raised ''unused'')) (Inr ''job-1'') (Inr PNone)) 7
        [''text'' \<mapsto> PStr ''say \"hi\"''] 0
     = \<lparr>outcome = Inl JSONDecodeError, calls = [], backend = 0\<rparr>"
proof -
  let ?env = "stub_env (Inl (Raised ''unused'')) (Inr ''job-1'') (Inr PNone) :: (nat, string) env"
  have r1: "render (TEXT2IMG_PROMPT_TEMPLATE ?env)
              [''text'' \<mapsto> dict_get [''text'' \<mapsto> PStr ''a red fox''] ''text'']
            = Inr (JObj [(ustr ''prompt'', JStr (ustr ''a red fox''))])"
    by (simp add: eval_defs)
  have r2: "render (TEXT2IMG_PROMPT_TEMPLATE ?env)
              [''text'' \<mapsto> dict_get [''text'' \<mapsto> PStr ''say \"hi\"''] ''text'']
            = Inl JSONDecodeError"
    by (simp add: eval_defs)
  have "calls (text2img ?env 7 [''text'' \<mapsto> PStr ''a red fox''] 0)
          = [Queue_prompt 7 (JObj [(ustr ''prompt'', JStr (ustr ''a red fox''))])]"
    using text2img_render_then_submit
            [where env = ?env and params = "[''text'' \<mapsto> PStr ''a red fox'']" and cid = 7 and s = 0]
    unfolding r1 by simp
  moreover have "text2img ?env 7 [''text'' \<mapsto> PStr ''say \"hi\"''] 0
                   = \<lparr>outcome = Inl JSONDecodeError, calls = [], backend = 0\<rparr>"
    using text2img_render_then_submit
            [where env = ?env and params = "[''text'' \<mapsto> PStr ''say \"hi\"'']" and cid = 7 and s = 0]
    unfolding r2 by simp
  ultimately show ?thesis by simp
qed

text \<open>
  Claim C9. Rendering is deterministic: the job depends on the template and the
  substituted values, and on nothing else. Two text-to-image runs with the same template
  and the same text submit the same job, and so do two image-to-image runs with the same
  template, the same text and the same path of the uploaded asset, whatever the task
  identifiers, the backends and their states are.
\<close>

theorem rendering_deterministic:
  "(TEXT2IMG_PROMPT_TEMPLATE env1 = TEXT2IMG_PROMPT_TEMPLATE env2
      \<and> dict_get params1 ''text'' = dict_get params2 ''text''
    \<longrightarrow> jobs (calls (text2img env1 cid1 params1 s1)) = jobs (calls (text2img env2 cid2 params2 s2)))
   \<and> (IMG2IMG_PROMPT_TEMPLATE env1 = IMG2IMG_PROMPT_TEMPLATE env2
      \<and> dict_get params1 ''text'' = dict_get params2 ''text''
      \<and> b64decode (dict_get params1 ''image'') = Inr bytes1
      \<and> b64decode (dict_get params2 ''image'') = Inr bytes2
      \<and> upload_image (comfy_client env1) bytes1 s1 = (Inr resp1, t1)
      \<and> upload_image (comfy_client env2) bytes2 s2 = (Inr resp2, t2)
      \<and> image_path resp1 = image_path resp2
    \<longrightarrow> jobs (calls (img2img env1 cid1 params1 s1)) = jobs (calls (img2img env2 cid2 params2 s2)))"
  by (auto simp: text2img_render img2img_uploaded split: sum.splits prod.splits)

text \<open>
  Two runs that differ in the task identifier, in the state of the backend, in the image
  and in what the backend answers to the submission, and agree on the template, the text
  and the path.
\<close>

theorem rendering_deterministic_witness:
  "jobs (calls (text2img (stub_env (Inl (Raised ''unused'')) (Inr ''job-1'') (Inr PNone)) 7
                  [''text'' \<mapsto> PStr ''a red fox''] 0))
     = jobs (calls (text2img (stub_env (Inl (Raised ''unused'')) (Inl (Raised ''queue refused'')) (Inr PNone)
                              :: (nat, string) env) 8
                      [''text'' \<mapsto> PStr ''a red fox'', ''seed'' \<mapsto> PInt 3] 5))
   \<and> jobs (calls (img2img (stub_env (Inr \<lparr>name = ''a.png'', subfolder = ''x''\<rparr>) (Inr ''job-1'') (Inr PNone)) 7
                    [''text'' \<mapsto> PStr ''a red fox'', ''image'' \<mapsto> PStr ''QQ==''] 0))
     = jobs (calls (img2img (stub_env (Inr \<lparr>name = ''x/a.png'', subfolder = ''''\<rparr>)
                               (Inl (Raised ''queue refused'')) (Inr PNone)
                             :: (nat, string) env) 8
                      [''text'' \<mapsto> PStr ''a red fox'', ''image'' \<mapsto> PStr ''aGk=''] 5))"
proof -
  let ?r1 = "\<lparr>name = ''a.png'', subfolder = ''x''\<rparr>"
  let ?r2 = "\<lparr>name = ''x/a.png'', subfolder = ''''\<rparr>"
  let ?t1 = "stub_env (Inl (Raised ''unused'')) (Inr ''job-1'') (Inr PNone) :: (nat, string) env"
  let ?t2 = "stub_env (Inl (Raised ''unused'')) (Inl (Raised ''queue refused'')) (Inr PNone)
               :: (nat, string) env"
  let ?i1 = "stub_env (Inr ?r1) (Inr ''job-1'') (Inr PNone) :: (nat, string) env"
  let ?i2 = "stub_env (Inr ?r2) (Inl (Raised ''queue refused'')) (Inr PNone) :: (nat, string) env"
  let ?p1 = "[''text'' \<mapsto> PStr ''a red fox'']"
  let ?p2 = "[''text'' \<mapsto> PStr ''a red fox'', ''seed'' \<mapsto> PInt 3]"
  let ?q1 = "[''text'' \<mapsto> PStr ''a red fox'', ''image'' \<mapsto> PStr ''QQ=='']"
  let ?q2 = "[''text'' \<mapsto> PStr ''a red fox'', ''image'' \<mapsto> PStr ''aGk='']"
  have a: "TEXT2IMG_PROMPT_TEMPLATE ?t1 = TEXT2IMG_PROMPT_TEMPLATE ?t2
           \<and> dict_get ?p1 ''text'' = dict_get ?p2 ''text''"
    by (simp add: eval_defs)
  have b: "IMG2IMG_PROMPT_TEMPLATE ?i1 = IMG2IMG_PROMPT_TEMPLATE ?i2
           \<and> dict_get ?q1 ''text'' = dict_get ?q2 ''text''
           \<and> b64decode (dict_get ?q1 ''image'') = Inr [0x41]
           \<and> b64decode (dict_get ?q2 ''image'') = Inr [0x68, 0x69]
           \<and> upload_image (comfy_client ?i1) [0x41] 0 = (Inr ?r1, 1)
           \<and> upload_image (comfy_client ?i2) [0x68, 0x69] 5 = (Inr ?r2, 6)
           \<and> image_path ?r1 = image_path ?r2"
    by (simp add: eval_defs)
  have "jobs (calls (text2img ?t1 7 ?p1 0)) = jobs (calls (text2img ?t2 8 ?p2 5))"
    using rendering_deterministic
            [where ?env1.0 = ?t1 and ?env2.0 = ?t2 and ?params1.0 = ?p1 and ?params2.0 = ?p2
               and ?cid1.0 = 7 and ?cid2.0 = 8 and ?s1.0 = 0 and ?s2.0 = 5]
          a
    by blast
  moreover have "jobs (calls (img2img ?i1 7 ?q1 0)) = jobs (calls (img2img ?i2 8 ?q2 5))"
    using rendering_deterministic
            [where ?env1.0 = ?i1 and ?env2.0 = ?i2 and ?params1.0 = ?q1 and ?params2.0 = ?q2
               and ?cid1.0 = 7 and ?cid2.0 = 8 and ?s1.0 = 0 and ?s2.0 = 5
               and ?bytes1.0 = "[0x41]" and ?bytes2.0 = "[0x68, 0x69]"
               and ?resp1.0 = ?r1 and ?resp2.0 = ?r2 and ?t1.0 = 1 and ?t2.0 = 6]
          b
    by blast
  ultimately show ?thesis by simp
qed



end
